theory Spec2Isabelle
  imports Main "HOL-Library.Word"
begin

unbundle bit_operations_syntax

section \<open>The network value\<close>

text \<open>
  \<^verbatim>\<open>struct IPNetwork { uint32_t network; int prefix; ... }\<close>.
  The address is a 32-bit word. The prefix is a C++ \<^verbatim>\<open>int\<close>; it is modelled
  as an integer, and the theorems name the range \<open>0..32\<close> where they need it.
\<close>

type_synonym uint32 = "32 word"

record IPNetwork =
  network :: uint32
  prefix :: int

text \<open>
  The expression \<^verbatim>\<open>(p == 0) ? 0 : (0xFFFFFFFFU << (32 - p))\<close>, which the source
  writes three times (in \<^verbatim>\<open>fromCIDR\<close>, in \<^verbatim>\<open>getMask\<close> and in the loop of
  \<^verbatim>\<open>addressExclude\<close>). For \<open>1 \<le> p \<le> 32\<close> the shift count lies in \<open>0..31\<close>.
  Outside \<open>0..32\<close> the C++ shift count is out of range and the language leaves the
  result undefined; there the value below (count \<open>nat (32 - p)\<close>) is a convention of
  the model only, and every theorem that depends on the value of a mask assumes
  \<open>0 \<le> p \<le> 32\<close>.
\<close>

definition prefix_mask :: "int \<Rightarrow> uint32" where
  "prefix_mask p = (if p = 0 then 0 else push_bit (nat (32 - p)) 0xFFFFFFFF)"

definition getMask :: "IPNetwork \<Rightarrow> uint32" where
  "getMask this = prefix_mask (prefix this)"

definition getBroadcast :: "IPNetwork \<Rightarrow> uint32" where
  "getBroadcast this = (let mask = getMask this in network this OR NOT mask)"

definition overlaps :: "IPNetwork \<Rightarrow> IPNetwork \<Rightarrow> bool" where
  "overlaps this other =
     (let mask1 = getMask this; mask2 = getMask other
      in (network this AND mask1) = (network other AND mask2) \<or>
         (network this AND mask2) = (network other AND mask2) \<or>
         (network other AND mask1) = (network this AND mask1))"

text \<open>\<^verbatim>\<open>operator<\<close> and \<^verbatim>\<open>operator==\<close> of the struct.\<close>

definition less_net :: "IPNetwork \<Rightarrow> IPNetwork \<Rightarrow> bool" where
  "less_net this other =
     (if network this \<noteq> network other then network this < network other
      else prefix this < prefix other)"

definition eq_net :: "IPNetwork \<Rightarrow> IPNetwork \<Rightarrow> bool" where
  "eq_net this other = (network this = network other \<and> prefix this = prefix other)"

section \<open>The exclusion kernel\<close>

text \<open>
  The loop of \<^verbatim>\<open>addressExclude\<close>,
  \<^verbatim>\<open>for (int p = prefix + 1; p <= 32; ++p) { ... if (result.size() >= 2) break; }\<close>,
  with the loop variable and the vector \<^verbatim>\<open>result\<close> as arguments.
\<close>

function exclude_loop :: "IPNetwork \<Rightarrow> IPNetwork \<Rightarrow> int \<Rightarrow> IPNetwork list \<Rightarrow> IPNetwork list" where
  "exclude_loop this exclude p result =
     (if p \<le> 32 then
        (let subMask = prefix_mask p;
             subnet1 = network this AND subMask;
             subnet2 = subnet1 OR NOT subMask;
             net1 = \<lparr>network = subnet1, prefix = p\<rparr>;
             net2 = \<lparr>network = subnet2, prefix = p\<rparr>;
             result1 = (if \<not> overlaps net1 exclude then result @ [net1] else result);
             result2 = (if \<not> overlaps net2 exclude then result1 @ [net2] else result1)
         in if length result2 \<ge> 2 then result2
            else exclude_loop this exclude (p + 1) result2)
      else result)"
  by pat_completeness auto
termination
  by (relation "measure (\<lambda>(this, exclude, p, result). nat (33 - p))") auto

declare exclude_loop.simps [simp del]

definition addressExclude :: "IPNetwork \<Rightarrow> IPNetwork \<Rightarrow> IPNetwork list" where
  "addressExclude this exclude =
     (let mask = getMask this
      in if (network this AND mask) \<noteq> (network exclude AND mask) \<and>
            (network exclude AND mask) \<noteq> (network this AND mask)
         then [this]
         else (let result = exclude_loop this exclude (prefix this + 1) []
               in if result = [] then [this] else result))"

section \<open>The driver of \<^verbatim>\<open>main\<close>\<close>

text \<open>
  One member \<open>y\<close> of the working set against one exclude \<open>n\<close>
  (the body of the inner loop), one exclude against the whole working set
  (the body of the outer loop), and the outer loop itself.
\<close>

definition exclude_member :: "IPNetwork \<Rightarrow> IPNetwork \<Rightarrow> IPNetwork list" where
  "exclude_member y n = (if overlaps y n then addressExclude y n else [y])"

definition exclude_step :: "IPNetwork list \<Rightarrow> IPNetwork \<Rightarrow> IPNetwork list" where
  "exclude_step result n = concat (map (\<lambda>y. exclude_member y n) result)"

definition exclude_all :: "IPNetwork \<Rightarrow> IPNetwork list \<Rightarrow> IPNetwork list" where
  "exclude_all start excludes = foldl exclude_step [start] excludes"

text \<open>
  \<^verbatim>\<open>std::sort(result.begin(), result.end())\<close> orders by \<^verbatim>\<open>operator<\<close>. That
  comparison is a strict total order whose incomparable pairs are exactly the equal
  ones, so every correct sorting algorithm returns the same vector; insertion sort
  with the source's comparison stands for it.
\<close>

fun insert_net :: "IPNetwork \<Rightarrow> IPNetwork list \<Rightarrow> IPNetwork list" where
  "insert_net x [] = [x]"
| "insert_net x (y # ys) = (if less_net y x then y # insert_net x ys else x # y # ys)"

fun sort_net :: "IPNetwork list \<Rightarrow> IPNetwork list" where
  "sort_net [] = []"
| "sort_net (x # xs) = insert_net x (sort_net xs)"

text \<open>
  \<^verbatim>\<open>result.erase(std::unique(result.begin(), result.end()), result.end())\<close> keeps
  the first element of every run of adjacent elements equal under \<^verbatim>\<open>operator==\<close>.
\<close>

fun unique_net :: "IPNetwork list \<Rightarrow> IPNetwork list" where
  "unique_net [] = []"
| "unique_net [x] = [x]"
| "unique_net (x # y # xs) =
     (if eq_net x y then unique_net (x # xs) else x # unique_net (y # xs))"

text \<open>
  Lines 135 to 157 of \<^verbatim>\<open>main\<close> on parsed networks: the vector that is printed.
\<close>

definition subtract :: "IPNetwork \<Rightarrow> IPNetwork list \<Rightarrow> IPNetwork list" where
  "subtract start excludes = unique_net (sort_net (exclude_all start excludes))"

section \<open>Parsing\<close>

text \<open>
  The C library's character classes in the "C" locale: \<^verbatim>\<open>isspace\<close> holds of the
  space and of the characters 9 to 13, \<^verbatim>\<open>isdigit\<close> of \<open>0\<close> to \<open>9\<close>.
\<close>

definition is_space :: "char \<Rightarrow> bool" where
  "is_space c = (let n = (of_char c :: nat) in n = 32 \<or> (9 \<le> n \<and> n \<le> 13))"

definition is_digit :: "char \<Rightarrow> bool" where
  "is_digit c = (let n = (of_char c :: nat) in 48 \<le> n \<and> n \<le> 57)"

text \<open>\<^verbatim>\<open>c_str()\<close>: the C functions read the text up to its first NUL character.\<close>

definition c_str :: "string \<Rightarrow> string" where
  "c_str s = takeWhile (\<lambda>c. c \<noteq> CHR 0x00) s"

definition decimal :: "string \<Rightarrow> int" where
  "decimal ds = foldl (\<lambda>a c. a * 10 + (int (of_char c) - 48)) 0 ds"

text \<open>
  One decimal integer as \<^verbatim>\<open>strtol\<close> with base 10 and the conversion \<^verbatim>\<open>%d\<close> of
  \<^verbatim>\<open>sscanf\<close> read it: leading white space is skipped, one sign is optional, at
  least one digit must follow. The result is the value and the text after the last
  digit, or \<open>None\<close> when there is no digit to convert.
\<close>

definition scan_int :: "string \<Rightarrow> (int \<times> string) option" where
  "scan_int s =
     (let s1 = dropWhile is_space s;
          neg = (case s1 of [] \<Rightarrow> False | c # r \<Rightarrow> c = CHR ''-'');
          s2 = (case s1 of [] \<Rightarrow> [] | c # r \<Rightarrow> if c = CHR ''-'' \<or> c = CHR ''+'' then r else s1);
          ds = takeWhile is_digit s2
      in if ds = [] then None
         else Some (if neg then - decimal ds else decimal ds, dropWhile is_digit s2))"

text \<open>
  \<^verbatim>\<open>sscanf(ip.c_str(), "%d.%d.%d.%d", ...)\<close>: up to \<open>k\<close> integers with a literal
  dot between them. The scan stops at the first integer or dot that does not match;
  the list holds the values converted up to there.
\<close>

fun scan_fields :: "nat \<Rightarrow> string \<Rightarrow> int list" where
  "scan_fields 0 s = []"
| "scan_fields (Suc k) s =
     (case scan_int s of
        None \<Rightarrow> []
      | Some (v, rest) \<Rightarrow>
          v # (case rest of
                 [] \<Rightarrow> []
               | c # rest' \<Rightarrow> if c = CHR ''.'' then scan_fields k rest' else []))"

text \<open>
  \<^verbatim>\<open>parseIP\<close>. The array \<^verbatim>\<open>parts\<close> starts as four zeros, the value that
  \<^verbatim>\<open>sscanf\<close> returns is not looked at, and no range is checked. The parts are
  32-bit \<^verbatim>\<open>int\<close>s; shifting, or-ing and converting them to \<^verbatim>\<open>uint32_t\<close> is
  arithmetic modulo \<open>2 ^ 32\<close>. (A scanned value beyond the range of \<^verbatim>\<open>int\<close> is
  left undefined by C; the model reduces it modulo \<open>2 ^ 32\<close> as well.)
\<close>

definition parseIP :: "string \<Rightarrow> uint32" where
  "parseIP ip =
     (let parts = map word_of_int (scan_fields 4 (c_str ip)) @ replicate 4 (0 :: uint32)
      in push_bit 24 (parts ! 0) OR push_bit 16 (parts ! 1) OR push_bit 8 (parts ! 2) OR parts ! 3)"

text \<open>
  The exceptions of \<^verbatim>\<open>std::stoi\<close>, the only ones the program can raise, and the
  three ways a call can end. \<open>Undefined_behaviour\<close> is not an error the program
  reports: it marks the calls that reach a shift whose count lies outside \<open>0..31\<close>.
\<close>

datatype failure = invalid_argument | out_of_range

datatype 'a outcome = Returned 'a | Thrown failure | Undefined_behaviour

definition stoi :: "string \<Rightarrow> failure + int" where
  "stoi str =
     (case scan_int (c_str str) of
        None \<Rightarrow> Inl invalid_argument
      | Some (v, rest) \<Rightarrow>
          if v < - (2 ^ 31) \<or> 2 ^ 31 - 1 < v then Inl out_of_range else Inr v)"

text \<open>
  \<^verbatim>\<open>fromCIDR\<close>. \<^verbatim>\<open>cidr.find('/')\<close> is the first slash; the text before it is
  \<^verbatim>\<open>ipPart\<close>, the text after it goes to \<^verbatim>\<open>std::stoi\<close>. The source compares
  \<^verbatim>\<open>prefixLen\<close> with nothing but 0: a prefix outside \<open>0..32\<close> reaches
  \<^verbatim>\<open>0xFFFFFFFFU << (32 - prefixLen)\<close> with a count that is out of range.
\<close>

definition fromCIDR :: "string \<Rightarrow> IPNetwork outcome" where
  "fromCIDR cidr =
     (if CHR ''/'' \<in> set cidr then
        (let ipPart = takeWhile (\<lambda>c. c \<noteq> CHR ''/'') cidr;
             prefixText = drop 1 (dropWhile (\<lambda>c. c \<noteq> CHR ''/'') cidr)
         in case stoi prefixText of
              Inl e \<Rightarrow> Thrown e
            | Inr prefixLen \<Rightarrow>
                if prefixLen < 0 \<or> 32 < prefixLen then Undefined_behaviour
                else (let ip = parseIP ipPart;
                          mask = prefix_mask prefixLen;
                          network = ip AND mask
                      in Returned \<lparr>network = network, prefix = prefixLen\<rparr>))
      else (let ip = parseIP cidr in Returned \<lparr>network = ip, prefix = 32\<rparr>))"

text \<open>
  \<^verbatim>\<open>main\<close> with the two literals \<^verbatim>\<open>start\<close> and \<^verbatim>\<open>exclude\<close> as arguments:
  every exclude is parsed when its turn comes, and an exception ends the program.
\<close>

fun main_loop :: "IPNetwork list \<Rightarrow> string list \<Rightarrow> IPNetwork list outcome" where
  "main_loop result [] = Returned result"
| "main_loop result (x # xs) =
     (case fromCIDR x of
        Returned n \<Rightarrow> main_loop (exclude_step result n) xs
      | Thrown e \<Rightarrow> Thrown e
      | Undefined_behaviour \<Rightarrow> Undefined_behaviour)"

definition main_result :: "string \<Rightarrow> string list \<Rightarrow> IPNetwork list outcome" where
  "main_result start exclude =
     (case fromCIDR start of
        Returned s \<Rightarrow>
          (case main_loop [s] exclude of
             Returned result \<Rightarrow> Returned (unique_net (sort_net result))
           | Thrown e \<Rightarrow> Thrown e
           | Undefined_behaviour \<Rightarrow> Undefined_behaviour)
      | Thrown e \<Rightarrow> Thrown e
      | Undefined_behaviour \<Rightarrow> Undefined_behaviour)"

section \<open>The predicates of the specification\<close>

text \<open>
  A network is canonical when its prefix lies in \<open>0..32\<close> and its host bits are zero
  (invariant 1 of the data model).
\<close>

definition canonical :: "IPNetwork \<Rightarrow> bool" where
  "canonical n = (0 \<le> prefix n \<and> prefix n \<le> 32 \<and> network n AND getMask n = network n)"

text \<open>
  Containment as the specification words it: A contains B when
  \<open>prefix A \<le> prefix B\<close> and \<open>base B & mask A = base A\<close>. The source has no such
  function; this definition follows the specification.
\<close>

definition contains_spec :: "IPNetwork \<Rightarrow> IPNetwork \<Rightarrow> bool" where
  "contains_spec a b = (prefix a \<le> prefix b \<and> network b AND getMask a = network a)"

section \<open>Masks\<close>

lemma all_ones: "(0xFFFFFFFF :: uint32) = - 1"
  by simp

lemma prefix_mask_push:
  assumes "0 \<le> p" "p \<le> 32"
  shows "prefix_mask p = push_bit (nat (32 - p)) (- 1)"
proof (cases "p = 0")
  case True
  have "push_bit 32 (- 1 :: uint32) = 0"
    by (simp del: push_bit_minus_one_eq_not_mask)
  with True show ?thesis
    by (simp add: prefix_mask_def del: push_bit_minus_one_eq_not_mask)
next
  case False
  then show ?thesis unfolding prefix_mask_def all_ones by simp
qed

lemma bit_prefix_mask:
  "0 \<le> p \<Longrightarrow> p \<le> 32 \<Longrightarrow> bit (prefix_mask p) i \<longleftrightarrow> nat (32 - p) \<le> i \<and> i < 32"
  by (auto simp add: prefix_mask_push bit_simps simp del: push_bit_minus_one_eq_not_mask)

lemma prefix_mask_mono:
  assumes "0 \<le> p" "p \<le> q" "q \<le> 32"
  shows "prefix_mask p AND prefix_mask q = prefix_mask p"
  using assms by (intro bit_eqI) (auto simp add: bit_simps bit_prefix_mask)

lemma and_prefix_mask_absorb:
  assumes "0 \<le> p" "p \<le> q" "q \<le> 32"
  shows "(x AND prefix_mask p) AND prefix_mask q = x AND prefix_mask p"
  using prefix_mask_mono [OF assms] by (metis and.assoc)

lemma canonical_and_finer:
  assumes "canonical a" "prefix a \<le> q" "q \<le> 32"
  shows "network a AND prefix_mask q = network a"
proof -
  from assms have "network a = network a AND prefix_mask (prefix a)" and "0 \<le> prefix a"
    by (simp_all add: canonical_def getMask_def)
  then show ?thesis
    using and_prefix_mask_absorb [of "prefix a" q "network a"] assms(2,3) by metis
qed

lemma or_not_mask_and: "(x OR NOT m) AND m = x AND (m :: uint32)"
  by (intro bit_eqI) (auto simp add: bit_simps)

section \<open>The overlap predicate\<close>

text \<open>
  Claim C10. \<^verbatim>\<open>overlaps\<close> is symmetric on all network values, canonical or not:
  \<open>overlaps A B\<close> equals \<open>overlaps B A\<close>.
\<close>

theorem overlaps_symmetric: "overlaps a b = overlaps b a"
  by (auto simp add: overlaps_def Let_def)

text \<open>
  Claim C6. For canonical networks A and B, \<^verbatim>\<open>overlaps\<close> holds exactly when A
  contains B or B contains A, where A contains B means \<open>prefix A \<le> prefix B\<close> and
  \<open>base B & mask A = base A\<close>. In particular two networks with different
  addresses can overlap.
\<close>

theorem overlaps_iff_contains:
  assumes "canonical a" "canonical b"
  shows "overlaps a b \<longleftrightarrow> contains_spec a b \<or> contains_spec b a"
proof -
  have a: "network a AND getMask a = network a" and b: "network b AND getMask b = network b"
    using assms by (simp_all add: canonical_def)
  have ov: "overlaps a b \<longleftrightarrow>
      network a = network b \<or> network a AND getMask b = network b \<or>
      network b AND getMask a = network a"
    by (simp add: overlaps_def Let_def a b)
  show ?thesis
  proof (cases "prefix a \<le> prefix b")
    case True
    then have "network a AND getMask b = network a"
      using canonical_and_finer [OF assms(1), of "prefix b"] assms(2)
      by (simp add: canonical_def getMask_def)
    with True a show ?thesis
      by (auto simp add: ov contains_spec_def)
  next
    case False
    then have "network b AND getMask a = network b"
      using canonical_and_finer [OF assms(2), of "prefix a"] assms(1)
      by (simp add: canonical_def getMask_def)
    with False b show ?thesis
      by (auto simp add: ov contains_spec_def)
  qed
qed

text \<open>
  The theorem at 10.0.0.0/24 and 10.0.0.128/25: the first contains the second, so
  they overlap, and their addresses differ.
\<close>

theorem overlaps_iff_contains_witness:
  "canonical \<lparr>network = 0x0A000000, prefix = 24\<rparr> \<and>
   canonical \<lparr>network = 0x0A000080, prefix = 25\<rparr> \<and>
   network \<lparr>network = 0x0A000000, prefix = 24\<rparr> \<noteq> network \<lparr>network = 0x0A000080, prefix = 25\<rparr> \<and>
   overlaps \<lparr>network = 0x0A000000, prefix = 24\<rparr> \<lparr>network = 0x0A000080, prefix = 25\<rparr>"
proof -
  have a: "canonical \<lparr>network = 0x0A000000, prefix = 24\<rparr>" by code_simp
  have b: "canonical \<lparr>network = 0x0A000080, prefix = 25\<rparr>" by code_simp
  have c: "contains_spec \<lparr>network = 0x0A000000, prefix = 24\<rparr> \<lparr>network = 0x0A000080, prefix = 25\<rparr>"
    by code_simp
  show ?thesis
    using a b c overlaps_iff_contains [OF a b] by simp
qed

section \<open>Excluding a network that covers the member\<close>

lemma overlaps_same_base:
  assumes "network a AND getMask a = network b AND getMask b"
  shows "overlaps a b"
  using assms by (simp add: overlaps_def Let_def)

text \<open>
  When the exclude \<open>x\<close> has the address of \<open>y\<close> and a prefix that is not longer,
  both candidates of every round of the loop overlap \<open>x\<close>, and nothing is pushed.
\<close>

lemma exclude_loop_covered:
  assumes "canonical y" "canonical x" "prefix x \<le> prefix y" "network x = network y"
  shows "prefix y < p \<Longrightarrow> n = nat (33 - p) \<Longrightarrow> exclude_loop y x p [] = []"
proof (induction n arbitrary: p)
  case 0
  then have "\<not> p \<le> 32" by simp
  then show ?case by (simp add: exclude_loop.simps [of y x p])
next
  case (Suc n)
  then have p: "p \<le> 32" "prefix y < p" by simp_all
  have x: "network x AND prefix_mask (prefix x) = network y"
    using assms(2,4) by (simp add: canonical_def getMask_def)
  have y: "network y AND prefix_mask p = network y"
    using canonical_and_finer [OF assms(1), of p] p by simp
  have o1: "overlaps \<lparr>network = network y AND prefix_mask p, prefix = p\<rparr> x"
    by (rule overlaps_same_base) (simp add: getMask_def x y)
  have o2: "overlaps \<lparr>network = (network y AND prefix_mask p) OR NOT (prefix_mask p), prefix = p\<rparr> x"
    by (rule overlaps_same_base) (simp add: getMask_def x y or_not_mask_and)
  have "exclude_loop y x p [] = exclude_loop y x (p + 1) []"
    using p o1 o2 by (simp add: exclude_loop.simps [of y x p] Let_def)
  also have "\<dots> = []"
    using Suc.prems p by (intro Suc.IH) simp_all
  finally show ?case .
qed

lemma addressExclude_covered:
  assumes "canonical y" "canonical x" "contains_spec x y"
  shows "addressExclude y x = [y]"
proof -
  have le: "prefix x \<le> prefix y" using assms(3) by (simp add: contains_spec_def)
  have y: "network y AND getMask y = network y" using assms(1) by (simp add: canonical_def)
  have x: "network x AND getMask y = network x"
    using canonical_and_finer [OF assms(2) le] assms(1) by (simp add: canonical_def getMask_def)
  show ?thesis
  proof (cases "network x = network y")
    case True
    have "exclude_loop y x (prefix y + 1) [] = []"
      using exclude_loop_covered [OF assms(1,2) le True, of "prefix y + 1"] by simp
    then show ?thesis by (simp add: addressExclude_def Let_def)
  next
    case False
    then show ?thesis by (auto simp add: addressExclude_def Let_def x y)
  qed
qed

lemma exclude_member_covered:
  assumes "canonical y" "canonical x" "contains_spec x y"
  shows "exclude_member y x = [y]"
  using addressExclude_covered [OF assms] by (simp add: exclude_member_def)

lemma subtract_single: "exclude_member s x = [s] \<Longrightarrow> subtract s [x] = [s]"
  by (simp add: subtract_def exclude_all_def exclude_step_def)

lemma canonical_contains_self: "canonical c \<Longrightarrow> contains_spec c c"
  by (simp add: canonical_def contains_spec_def)

text \<open>
  So a start network that the exclude covers, the start network itself included,
  comes out of the pipeline untouched, for every canonical pair: nothing of it is
  excluded.
\<close>

lemma subtract_covered:
  assumes "canonical s" "canonical x" "contains_spec x s"
  shows "subtract s [x] = [s]"
  using exclude_member_covered [OF assms] by (rule subtract_single)

lemma subtract_self:
  assumes "canonical c"
  shows "subtract c [c] = [c]"
  using assms assms canonical_contains_self [OF assms] by (rule subtract_covered)

text \<open>
  Claim C3 on the program, at 10.0.0.0/24 (scenario S3). The specification asks
  for the empty list when a network is excluded from itself, and for an empty
  output of the pipeline. The kernel, documented as splitting the network by
  excluding the given one, returns the network it was asked to exclude: the loop
  pushes nothing and lines 108 to 110 put \<^verbatim>\<open>*this\<close> back. The same lines
  swallow a sub-network that shares the base: 10.0.0.0/24 minus 10.0.0.0/26 is
  again 10.0.0.0/24.
\<close>

theorem self_exclude_at_s3:
  "canonical \<lparr>network = 0x0A000000, prefix = 24\<rparr> \<and>
   addressExclude \<lparr>network = 0x0A000000, prefix = 24\<rparr> \<lparr>network = 0x0A000000, prefix = 24\<rparr>
     = [\<lparr>network = 0x0A000000, prefix = 24\<rparr>] \<and>
   addressExclude \<lparr>network = 0x0A000000, prefix = 24\<rparr> \<lparr>network = 0x0A000000, prefix = 24\<rparr> \<noteq> [] \<and>
   subtract \<lparr>network = 0x0A000000, prefix = 24\<rparr> [\<lparr>network = 0x0A000000, prefix = 24\<rparr>]
     = [\<lparr>network = 0x0A000000, prefix = 24\<rparr>] \<and>
   main_result ''10.0.0.0/24'' [''10.0.0.0/24'']
     = Returned [\<lparr>network = 0x0A000000, prefix = 24\<rparr>] \<and>
   addressExclude \<lparr>network = 0x0A000000, prefix = 24\<rparr> \<lparr>network = 0x0A000000, prefix = 26\<rparr>
     = [\<lparr>network = 0x0A000000, prefix = 24\<rparr>]"
  by code_simp

text \<open>
  Claim C5 on the program. The specification asks that a working-set member Y be
  dropped when the exclude X contains it and differs from it, and that scenario S6
  (start 10.0.0.0/8, excludes 10.0.0.0/8 and 10.1.0.0/16) end with an empty output.
  At the member 10.1.0.0/16 and the exclude 10.0.0.0/8 the member is kept whole,
  and so is the start network 10.1.0.0/16 of a run with that exclude; at the member
  10.0.0.0/16 with the same exclude it is kept as well. Scenario S6 ends with the
  two networks 10.0.0.0/16 and 10.0.255.255/16.
\<close>

theorem covered_member_at_10_8:
  "canonical \<lparr>network = 0x0A010000, prefix = 16\<rparr> \<and>
   canonical \<lparr>network = 0x0A000000, prefix = 8\<rparr> \<and>
   contains_spec \<lparr>network = 0x0A000000, prefix = 8\<rparr> \<lparr>network = 0x0A010000, prefix = 16\<rparr> \<and>
   \<lparr>network = 0x0A000000, prefix = 8\<rparr> \<noteq> \<lparr>network = 0x0A010000, prefix = 16\<rparr> \<and>
   exclude_member \<lparr>network = 0x0A010000, prefix = 16\<rparr> \<lparr>network = 0x0A000000, prefix = 8\<rparr>
     = [\<lparr>network = 0x0A010000, prefix = 16\<rparr>] \<and>
   exclude_member \<lparr>network = 0x0A010000, prefix = 16\<rparr> \<lparr>network = 0x0A000000, prefix = 8\<rparr> \<noteq> [] \<and>
   main_result ''10.1.0.0/16'' [''10.0.0.0/8'']
     = Returned [\<lparr>network = 0x0A010000, prefix = 16\<rparr>] \<and>
   exclude_member \<lparr>network = 0x0A000000, prefix = 16\<rparr> \<lparr>network = 0x0A000000, prefix = 8\<rparr>
     = [\<lparr>network = 0x0A000000, prefix = 16\<rparr>] \<and>
   main_result ''10.0.0.0/8'' [''10.0.0.0/8'', ''10.1.0.0/16'']
     = Returned [\<lparr>network = 0x0A000000, prefix = 16\<rparr>, \<lparr>network = 0x0A00FFFF, prefix = 16\<rparr>] \<and>
   subtract \<lparr>network = 0x0A000000, prefix = 8\<rparr>
     [\<lparr>network = 0x0A000000, prefix = 8\<rparr>, \<lparr>network = 0x0A010000, prefix = 16\<rparr>] \<noteq> []"
  by code_simp

section \<open>An exclude outside the start network\<close>

text \<open>
  Claim C7. When the exclude X does not overlap the start network S, the pipeline
  with start S and excludes \<open>[X]\<close> outputs exactly \<open>[S]\<close>.
\<close>

theorem disjoint_exclude_keeps_start:
  assumes "\<not> overlaps s x"
  shows "subtract s [x] = [s]"
  using assms by (simp add: subtract_def exclude_all_def exclude_step_def exclude_member_def)

text \<open>Scenario S5: start 10.0.0.0/8, exclude 192.168.0.0/16.\<close>

theorem disjoint_exclude_keeps_start_witness:
  "\<not> overlaps \<lparr>network = 0x0A000000, prefix = 8\<rparr> \<lparr>network = 0xC0A80000, prefix = 16\<rparr> \<and>
   subtract \<lparr>network = 0x0A000000, prefix = 8\<rparr> [\<lparr>network = 0xC0A80000, prefix = 16\<rparr>]
     = [\<lparr>network = 0x0A000000, prefix = 8\<rparr>]"
proof -
  have h: "\<not> overlaps \<lparr>network = 0x0A000000, prefix = 8\<rparr> \<lparr>network = 0xC0A80000, prefix = 16\<rparr>"
    by code_simp
  show ?thesis using h disjoint_exclude_keeps_start [OF h] by simp
qed

section \<open>Sorting and removing duplicates\<close>

lemma eq_net_iff: "eq_net a b \<longleftrightarrow> a = (b :: IPNetwork)"
  by (auto simp add: eq_net_def)

lemma less_net_irrefl: "\<not> less_net a a"
  by (simp add: less_net_def)

lemma less_net_trans: "less_net a b \<Longrightarrow> less_net b c \<Longrightarrow> less_net a c"
  by (auto simp add: less_net_def split: if_splits)

lemma less_net_total: "less_net a b \<or> less_net b a \<or> a = (b :: IPNetwork)"
  by (cases a; cases b) (auto simp add: less_net_def)

lemma not_less_net_trans:
  "\<not> less_net b a \<Longrightarrow> \<not> less_net c b \<Longrightarrow> \<not> less_net c a"
  by (auto simp add: less_net_def split: if_splits)

lemma set_insert_net: "set (insert_net x xs) = insert x (set xs)"
  by (induction xs) auto

lemma sorted_insert_net:
  "sorted_wrt (\<lambda>a b. \<not> less_net b a) xs \<Longrightarrow>
   sorted_wrt (\<lambda>a b. \<not> less_net b a) (insert_net x xs)"
proof (induction xs)
  case Nil
  then show ?case by simp
next
  case (Cons y ys)
  show ?case
  proof (cases "less_net y x")
    case True
    then have "\<not> less_net x y" by (auto simp add: less_net_def split: if_splits)
    with True Cons show ?thesis by (auto simp add: set_insert_net)
  next
    case False
    with Cons.prems show ?thesis using not_less_net_trans [of y x] by auto
  qed
qed

lemma sorted_sort_net: "sorted_wrt (\<lambda>a b. \<not> less_net b a) (sort_net xs)"
  by (induction xs) (simp_all add: sorted_insert_net)

lemma set_unique_net: "set (unique_net xs) = set xs"
  by (induction xs rule: unique_net.induct) (auto simp add: eq_net_iff)

lemma strict_unique_net:
  "sorted_wrt (\<lambda>a b. \<not> less_net b a) xs \<Longrightarrow> sorted_wrt less_net (unique_net xs)"
proof (induction xs rule: unique_net.induct)
  case 1
  then show ?case by simp
next
  case (2 x)
  then show ?case by simp
next
  case (3 x y xs)
  show ?case
  proof (cases "eq_net x y")
    case True
    with 3 show ?thesis by simp
  next
    case False
    then have xy: "less_net x y"
      using "3.prems" less_net_total [of x y] by (auto simp add: eq_net_iff)
    have "less_net x z" if "z \<in> set (y # xs)" for z
    proof (cases "z = y")
      case True
      with xy show ?thesis by simp
    next
      case False
      with that "3.prems" have "\<not> less_net z y" by auto
      then have "less_net y z" using less_net_total [of y z] False by auto
      with xy show ?thesis by (rule less_net_trans)
    qed
    moreover have "sorted_wrt less_net (unique_net (y # xs))"
      using 3 False by simp
    moreover have "unique_net (x # y # xs) = x # unique_net (y # xs)"
      using False by simp
    ultimately show ?thesis by (simp add: set_unique_net del: unique_net.simps)
  qed
qed

lemma strict_distinct: "sorted_wrt less_net xs \<Longrightarrow> distinct xs"
  by (induction xs) (auto simp add: less_net_irrefl)

text \<open>
  Claim C8. For every start network and every list of excludes, the output of the
  pipeline is ascending in the order of \<^verbatim>\<open>operator<\<close> (address first, then
  prefix), strictly: every element is less than every later one, so no two
  elements are equal.
\<close>

theorem subtract_sorted_distinct:
  "sorted_wrt less_net (subtract start excludes) \<and> distinct (subtract start excludes)"
proof -
  have "sorted_wrt less_net (subtract start excludes)"
    unfolding subtract_def by (rule strict_unique_net) (rule sorted_sort_net)
  then show ?thesis by (simp add: strict_distinct)
qed

section \<open>The size and the members of the kernel's result\<close>

text \<open>
  The loop is left as soon as the vector holds two elements, and one round pushes at
  most two: the kernel never returns more than three networks, and never none.
\<close>

lemma exclude_loop_length:
  "n = nat (33 - p) \<Longrightarrow> length result < 2 \<Longrightarrow>
   length (exclude_loop this exclude p result) \<le> 3"
proof (induction n arbitrary: p result)
  case 0
  then have "\<not> p \<le> 32" by simp
  with 0 show ?case by (simp add: exclude_loop.simps [of this exclude p result])
next
  case (Suc n)
  then have p: "p \<le> 32" by simp
  define net1 where "net1 = \<lparr>network = network this AND prefix_mask p, prefix = p\<rparr>"
  define net2 where
    "net2 = \<lparr>network = (network this AND prefix_mask p) OR NOT (prefix_mask p), prefix = p\<rparr>"
  define result1 where "result1 = (if \<not> overlaps net1 exclude then result @ [net1] else result)"
  define result2 where "result2 = (if \<not> overlaps net2 exclude then result1 @ [net2] else result1)"
  have step: "exclude_loop this exclude p result =
      (if length result2 \<ge> 2 then result2 else exclude_loop this exclude (p + 1) result2)"
    using p by (simp add: exclude_loop.simps [of this exclude p result] Let_def
        net1_def net2_def result1_def result2_def)
  have len: "length result2 \<le> 3"
    using Suc.prems by (simp add: result1_def result2_def)
  show ?case
  proof (cases "length result2 \<ge> 2")
    case True
    with step len show ?thesis by simp
  next
    case False
    then have "length (exclude_loop this exclude (p + 1) result2) \<le> 3"
      using Suc.prems by (intro Suc.IH) simp_all
    with step False show ?thesis by simp
  qed
qed

lemma addressExclude_length:
  "1 \<le> length (addressExclude this exclude) \<and> length (addressExclude this exclude) \<le> 3"
  using exclude_loop_length [OF refl, of "[]" this exclude "prefix this + 1"]
  by (auto simp add: addressExclude_def Let_def Suc_le_eq)

text \<open>
  Claim C2 at the container 0.0.0.0/0 and the exclude 10.0.0.0/8, a strict
  sub-network: the specification asks for \<open>8 - 0 = 8\<close> networks; the kernel returns
  the two networks 0.0.0.0/5 and 7.255.255.255/5.
\<close>

theorem exclude_size_at_10_8:
  "canonical \<lparr>network = 0, prefix = 0\<rparr> \<and>
   canonical \<lparr>network = 0x0A000000, prefix = 8\<rparr> \<and>
   contains_spec \<lparr>network = 0, prefix = 0\<rparr> \<lparr>network = 0x0A000000, prefix = 8\<rparr> \<and>
   addressExclude \<lparr>network = 0, prefix = 0\<rparr> \<lparr>network = 0x0A000000, prefix = 8\<rparr>
     = [\<lparr>network = 0, prefix = 5\<rparr>, \<lparr>network = 0x07FFFFFF, prefix = 5\<rparr>] \<and>
   int (length (addressExclude \<lparr>network = 0, prefix = 0\<rparr> \<lparr>network = 0x0A000000, prefix = 8\<rparr>))
     \<noteq> prefix \<lparr>network = 0x0A000000, prefix = 8\<rparr> - prefix \<lparr>network = 0, prefix = 0\<rparr>"
  by code_simp

text \<open>
  Claim C4 at the container 10.0.0.0/24 and the exclude 10.0.0.128/25: the second
  network of the result is 10.0.0.127/25, whose host bits are set, so that
  \<open>network & getMask()\<close> differs from \<open>network\<close>.
\<close>

theorem exclude_emits_host_bits:
  "canonical \<lparr>network = 0x0A000000, prefix = 24\<rparr> \<and>
   canonical \<lparr>network = 0x0A000080, prefix = 25\<rparr> \<and>
   addressExclude \<lparr>network = 0x0A000000, prefix = 24\<rparr> \<lparr>network = 0x0A000080, prefix = 25\<rparr>
     = [\<lparr>network = 0x0A000000, prefix = 25\<rparr>, \<lparr>network = 0x0A00007F, prefix = 25\<rparr>] \<and>
   network \<lparr>network = 0x0A00007F, prefix = 25\<rparr> AND getMask \<lparr>network = 0x0A00007F, prefix = 25\<rparr>
     \<noteq> network \<lparr>network = 0x0A00007F, prefix = 25\<rparr>"
  by code_simp

section \<open>What the parser accepts\<close>

lemma and_all_ones: "x AND (0xFFFFFFFF :: uint32) = x"
  unfolding all_ones by simp

text \<open>Every network that \<^verbatim>\<open>fromCIDR\<close> returns is canonical.\<close>

lemma fromCIDR_canonical:
  assumes "fromCIDR s = Returned n"
  shows "canonical n"
proof (cases "CHR ''/'' \<in> set s")
  case True
  with assms obtain ip p where n: "n = \<lparr>network = ip AND prefix_mask p, prefix = p\<rparr>"
    and p: "0 \<le> p" "p \<le> 32"
    by (auto simp add: fromCIDR_def Let_def split: sum.splits if_splits)
  show ?thesis
    using p by (simp add: n canonical_def getMask_def and.assoc)
next
  case False
  with assms have n: "n = \<lparr>network = parseIP s, prefix = 32\<rparr>"
    by (simp add: fromCIDR_def Let_def)
  show ?thesis
    by (simp add: n canonical_def getMask_def prefix_mask_def and_all_ones)
qed

text \<open>
  When every text parses, \<^verbatim>\<open>main\<close> computes \<open>subtract\<close> of the parsed networks.
\<close>

lemma main_loop_Returned:
  "list_all2 (\<lambda>x n. fromCIDR x = Returned n) xs ns \<Longrightarrow>
   main_loop result xs = Returned (foldl exclude_step result ns)"
  by (induction xs ns arbitrary: result rule: list_all2_induct) simp_all

lemma main_result_subtract:
  assumes "fromCIDR start = Returned s"
    and "list_all2 (\<lambda>x n. fromCIDR x = Returned n) xs ns"
  shows "main_result start xs = Returned (subtract s ns)"
  using assms(1) main_loop_Returned [OF assms(2), of "[s]"]
  by (simp add: main_result_def subtract_def exclude_all_def)

text \<open>
  Claim C9 as the specification states it: an octet outside \<open>0..255\<close>
  (\<open>0.0.0.256\<close>, \<open>10.0.0.999/24\<close>), a text that is not numeric (\<open>abc\<close>) and a text
  with three octets (\<open>1.2.3\<close>) are all accepted as networks, and the prefix 33 is not
  rejected with an error: it reaches the shift with a count that is out of range.
\<close>

theorem parse_accepts_malformed_counterexample:
  "fromCIDR ''0.0.0.256'' = Returned \<lparr>network = 0x00000100, prefix = 32\<rparr> \<and>
   fromCIDR ''abc'' = Returned \<lparr>network = 0, prefix = 32\<rparr> \<and>
   fromCIDR ''1.2.3'' = Returned \<lparr>network = 0x01020300, prefix = 32\<rparr> \<and>
   fromCIDR ''10.0.0.999/24'' = Returned \<lparr>network = 0x0A000300, prefix = 24\<rparr> \<and>
   fromCIDR ''10.0.0.0/33'' = Undefined_behaviour"
  by code_simp

text \<open>
  Claim C9, amended. The parser has no error of its own and validates nothing.
  \<^verbatim>\<open>fromCIDR\<close> throws exactly when the text holds a slash and \<^verbatim>\<open>std::stoi\<close>
  throws on the text after the first slash (\<open>invalid_argument\<close> or
  \<open>out_of_range\<close>). A text without a slash is always accepted as a /32 network with
  the address that \<^verbatim>\<open>parseIP\<close> computes, whatever the octets are and however many
  there are.
\<close>

theorem fromCIDR_throws_only_from_stoi:
  "(fromCIDR s = Thrown e \<longleftrightarrow>
      CHR ''/'' \<in> set s \<and> stoi (drop 1 (dropWhile (\<lambda>c. c \<noteq> CHR ''/'') s)) = Inl e) \<and>
   (CHR ''/'' \<notin> set s \<longrightarrow> fromCIDR s = Returned \<lparr>network = parseIP s, prefix = 32\<rparr>)"
  by (auto simp add: fromCIDR_def Let_def split: sum.splits)

theorem fromCIDR_throws_only_from_stoi_witness:
  "CHR ''/'' \<notin> set ''1.2.3'' \<and>
   fromCIDR ''1.2.3'' = Returned \<lparr>network = 0x01020300, prefix = 32\<rparr>"
proof -
  have h: "CHR ''/'' \<notin> set ''1.2.3''" by simp
  have v: "parseIP ''1.2.3'' = 0x01020300" by code_simp
  show ?thesis using h v fromCIDR_throws_only_from_stoi [of "''1.2.3''"] by simp
qed

section \<open>Scenario S2\<close>

text \<open>
  Claim C1 on the program: with start \<open>10.0.0.0/24\<close> and the single exclude
  \<open>10.0.0.128/25\<close>, \<^verbatim>\<open>main\<close> ends with the two networks 10.0.0.0/25 and
  10.0.0.127/25, where the specification expects the single network 10.0.0.0/25.
  The same holds of the pipeline on the two parsed networks.
\<close>

theorem s2_output:
  "main_result ''10.0.0.0/24'' [''10.0.0.128/25'']
     = Returned [\<lparr>network = 0x0A000000, prefix = 25\<rparr>, \<lparr>network = 0x0A00007F, prefix = 25\<rparr>] \<and>
   subtract \<lparr>network = 0x0A000000, prefix = 24\<rparr> [\<lparr>network = 0x0A000080, prefix = 25\<rparr>]
     = [\<lparr>network = 0x0A000000, prefix = 25\<rparr>, \<lparr>network = 0x0A00007F, prefix = 25\<rparr>] \<and>
   subtract \<lparr>network = 0x0A000000, prefix = 24\<rparr> [\<lparr>network = 0x0A000080, prefix = 25\<rparr>]
     \<noteq> [\<lparr>network = 0x0A000000, prefix = 25\<rparr>]"
  by code_simp

end
